theory Spec2Isabelle
  imports Main
begin

section \<open>The converter of main.go\<close>

text \<open>
  The program scans a document once, code point by code point, and rewrites LaTeX
  constructs as HTML comments. This theory embeds the scanning core of \<^verbatim>\<open>main.go\<close>:
  the \<^verbatim>\<open>Converter\<close> struct, its accessors, the four recognizers and the dispatch
  loop \<^verbatim>\<open>Convert\<close>.

  Go panics on an index or a slice expression that is out of range. The accessors of the
  source do no bounds check of their own, so every one of them returns a value of
  \<open>error + 'a\<close> here, and a panic is the value \<open>Inl\<close>.
\<close>

subsection \<open>Code points\<close>

text \<open>
  A \<^verbatim>\<open>rune\<close> is a Unicode code point. \<^verbatim>\<open>bytes.Runes\<close> decodes the input bytes into
  code points before the scan starts, and the buffer encodes what is written to it; both
  belong to Go's standard library. The model starts from the decoded code points and
  keeps the output as the sequence of code points written. For ASCII text every byte is
  its own code point, which is what \<open>runes\<close> computes for a string literal.
\<close>

type_synonym rune = nat

definition runes :: "string \<Rightarrow> rune list" where
  "runes s = map of_char s"

abbreviation (input) chr_lt :: rune where "chr_lt \<equiv> of_char CHR ''<''"
abbreviation (input) chr_minus :: rune where "chr_minus \<equiv> of_char CHR ''-''"
abbreviation (input) chr_rbracket :: rune where "chr_rbracket \<equiv> of_char CHR '']''"
abbreviation (input) chr_lbracket :: rune where "chr_lbracket \<equiv> of_char CHR ''[''"
abbreviation (input) chr_lbrace :: rune where "chr_lbrace \<equiv> of_char CHR ''{''"
abbreviation (input) chr_rbrace :: rune where "chr_rbrace \<equiv> of_char CHR ''}''"
abbreviation (input) chr_backslash :: rune where "chr_backslash \<equiv> of_char (CHR 0x5C)"
abbreviation (input) chr_dollar :: rune where "chr_dollar \<equiv> of_char CHR ''$''"
abbreviation (input) chr_space :: rune where "chr_space \<equiv> of_char CHR '' ''"

text \<open>
  \<^verbatim>\<open>unicode.IsSpace\<close> of Go's standard library: in Latin-1 the characters
  \<^verbatim>\<open>\t \n \v \f \r\<close>, space, U+0085 and U+00A0; beyond Latin-1 the code points with
  the White_Space property.
\<close>

definition IsSpace :: "rune \<Rightarrow> bool" where
  "IsSpace r =
     (if r \<le> 0xFF then r \<in> {0x09, 0x0A, 0x0B, 0x0C, 0x0D, 0x20, 0x85, 0xA0}
      else r = 0x1680 \<or> (0x2000 \<le> r \<and> r \<le> 0x200A) \<or> r = 0x2028 \<or> r = 0x2029
        \<or> r = 0x202F \<or> r = 0x205F \<or> r = 0x3000)"

subsection \<open>The state\<close>

datatype error = IndexOutOfRange | SliceBoundsOutOfRange

text \<open>
  The struct \<^verbatim>\<open>Converter\<close>. The field \<^verbatim>\<open>in\<close> is named \<open>inp\<close> (\<open>in\<close> is reserved),
  and \<open>out\<close> holds the code points written to the buffer so far. \<^verbatim>\<open>cursor\<close> and
  \<^verbatim>\<open>inputLength\<close> are Go \<^verbatim>\<open>int\<close>s.
\<close>

record Converter =
  inputLength :: int
  cursor :: int
  inInlineMath :: bool
  inp :: "rune list"
  out :: "rune list"

text \<open>\<^verbatim>\<open>ByteArrayToConverter\<close>, from the decoded input; a Go \<^verbatim>\<open>bool\<close> starts false.\<close>

definition ByteArrayToConverter :: "rune list \<Rightarrow> Converter" where
  "ByteArrayToConverter rs =
     \<lparr>inputLength = int (length rs), cursor = 0, inInlineMath = False, inp = rs, out = []\<rparr>"

subsection \<open>Methods that operate on the input\<close>

definition atEof :: "Converter \<Rightarrow> bool" where
  "atEof c = (cursor c \<ge> inputLength c)"

text \<open>\<^verbatim>\<open>c.in[i]\<close>: the index expression panics unless \<open>0 \<le> i < len(c.in)\<close>.\<close>

definition at :: "Converter \<Rightarrow> int \<Rightarrow> error + rune" where
  "at c i =
     (if 0 \<le> i \<and> i < int (length (inp c)) then Inr (inp c ! nat i) else Inl IndexOutOfRange)"

definition current :: "Converter \<Rightarrow> error + rune" where
  "current c = at c (cursor c)"

definition next_rune :: "Converter \<Rightarrow> error + rune" where
  "next_rune c = at c (cursor c + 1)"

definition prev :: "Converter \<Rightarrow> error + rune" where
  "prev c = at c (cursor c - 1)"

text \<open>
  \<^verbatim>\<open>c.in[lo:hi]\<close>: the slice expression panics unless \<open>0 \<le> lo \<le> hi \<le> cap(c.in)\<close>.
  \<^verbatim>\<open>bytes.Runes\<close> allocates the slice with exactly as many elements as the input has
  code points, so the capacity is the length.
\<close>

definition slice :: "rune list \<Rightarrow> int \<Rightarrow> int \<Rightarrow> error + rune list" where
  "slice xs lo hi =
     (if 0 \<le> lo \<and> lo \<le> hi \<and> hi \<le> int (length xs)
      then Inr (take (nat (hi - lo)) (drop (nat lo) xs))
      else Inl SliceBoundsOutOfRange)"

definition lookaheadAt :: "Converter \<Rightarrow> int \<Rightarrow> int \<Rightarrow> error + rune list" where
  "lookaheadAt c n cur = slice (inp c) (cur + 1) (cur + 1 + n)"

definition lookahead :: "Converter \<Rightarrow> int \<Rightarrow> error + rune list" where
  "lookahead c n = slice (inp c) (cursor c + 1) (cursor c + 1 + n)"

definition lookback :: "Converter \<Rightarrow> int \<Rightarrow> error + rune list" where
  "lookback c n = slice (inp c) (cursor c - n) (cursor c)"

subsection \<open>Methods that operate on the output\<close>

definition emit :: "Converter \<Rightarrow> rune list \<Rightarrow> Converter" where
  "emit c s = c\<lparr>out := out c @ s\<rparr>"

definition emitRune :: "Converter \<Rightarrow> rune \<Rightarrow> Converter" where
  "emitRune c s = c\<lparr>out := out c @ [s]\<rparr>"

text \<open>
  The two statements \<^verbatim>\<open>c.emitRune(c.current()); c.cursor += 1\<close>, the body of every
  copying loop of the source.
\<close>

definition copy_current :: "Converter \<Rightarrow> error + Converter" where
  "copy_current c =
     (case current c of
        Inl e \<Rightarrow> Inl e
      | Inr x \<Rightarrow> Inr ((emitRune c x)\<lparr>cursor := cursor c + 1\<rparr>))"

text \<open>\<^verbatim>\<open>eq\<close>: the lengths first, then element by element.\<close>

fun eq_elems :: "rune list \<Rightarrow> rune list \<Rightarrow> bool" where
  "eq_elems [] b = True"
| "eq_elems (v # a) b = (if v \<noteq> hd b then False else eq_elems a (tl b))"

definition eq :: "rune list \<Rightarrow> rune list \<Rightarrow> bool" where
  "eq a b = (if length a \<noteq> length b then False else eq_elems a b)"

subsection \<open>HTML comments\<close>

text \<open>
  The condition of the copying loop of \<^verbatim>\<open>handleComments\<close>,
  \<^verbatim>\<open>!c.atEof() && (c.current() != '-' || !eq(c.lookahead(2), []rune("->")))\<close>,
  evaluated left to right with Go's short-circuit operators.
\<close>

definition comment_continues :: "Converter \<Rightarrow> error + bool" where
  "comment_continues c =
     (if atEof c then Inr False
      else (case current c of
        Inl e \<Rightarrow> Inl e
      | Inr x \<Rightarrow>
          if x \<noteq> chr_minus then Inr True
          else (case lookahead c 2 of
            Inl e \<Rightarrow> Inl e
          | Inr la \<Rightarrow> Inr (\<not> eq la (runes ''->'')))))"

function comment_loop :: "Converter \<Rightarrow> error + Converter" where
  "comment_loop c =
     (case comment_continues c of
        Inl e \<Rightarrow> Inl e
      | Inr go \<Rightarrow>
          if go then (case copy_current c of Inl e \<Rightarrow> Inl e | Inr c' \<Rightarrow> comment_loop c')
          else Inr c)"
  by pat_completeness auto
termination
  by (relation "measure (\<lambda>c. nat (inputLength c - cursor c))")
     (auto simp: comment_continues_def copy_current_def emitRune_def atEof_def
           split: if_splits sum.splits)

definition handleComments :: "Converter \<Rightarrow> error + (bool \<times> Converter)" where
  "handleComments c =
     (case current c of
        Inl e \<Rightarrow> Inl e
      | Inr x \<Rightarrow>
          if x \<noteq> chr_lt then Inr (False, c)
          else (case lookahead c 3 of
            Inl e \<Rightarrow> Inl e
          | Inr la \<Rightarrow>
              if \<not> eq la (runes ''!--'') then Inr (False, c)
              else (case comment_loop c of
                Inl e \<Rightarrow> Inl e
              | Inr c' \<Rightarrow> Inr (True, (emit c' (runes ''-->''))\<lparr>cursor := cursor c' + 3\<rparr>))))"

subsection \<open>CDATA sections\<close>

definition cdata_continues :: "Converter \<Rightarrow> error + bool" where
  "cdata_continues c =
     (if atEof c then Inr False
      else (case current c of
        Inl e \<Rightarrow> Inl e
      | Inr x \<Rightarrow>
          if x \<noteq> chr_rbracket then Inr True
          else (case lookahead c 2 of
            Inl e \<Rightarrow> Inl e
          | Inr la \<Rightarrow> Inr (\<not> eq la (runes '']>'')))))"

function cdata_loop :: "Converter \<Rightarrow> error + Converter" where
  "cdata_loop c =
     (case cdata_continues c of
        Inl e \<Rightarrow> Inl e
      | Inr go \<Rightarrow> if go then cdata_loop (c\<lparr>cursor := cursor c + 1\<rparr>) else Inr c)"
  by pat_completeness auto
termination
  by (relation "measure (\<lambda>c. nat (inputLength c - cursor c))")
     (auto simp: cdata_continues_def atEof_def split: if_splits sum.splits)

definition handleCDATA :: "Converter \<Rightarrow> error + (bool \<times> Converter)" where
  "handleCDATA c =
     (case current c of
        Inl e \<Rightarrow> Inl e
      | Inr x \<Rightarrow>
          if x \<noteq> chr_lt then Inr (False, c)
          else (case lookahead c 8 of
            Inl e \<Rightarrow> Inl e
          | Inr la \<Rightarrow>
              if \<not> eq la (runes ''![CDATA['') then Inr (False, c)
              else (case cdata_loop c of
                Inl e \<Rightarrow> Inl e
              | Inr c' \<Rightarrow> Inr (True, c'\<lparr>cursor := cursor c' + 3\<rparr>))))"

subsection \<open>LaTeX commands\<close>

text \<open>The first loop of \<^verbatim>\<open>handleLatexCommand\<close>: the command name.\<close>

definition name_continues :: "Converter \<Rightarrow> error + bool" where
  "name_continues c =
     (if atEof c then Inr False
      else (case current c of
        Inl e \<Rightarrow> Inl e
      | Inr x \<Rightarrow> Inr (x \<noteq> chr_lbrace \<and> x \<noteq> chr_lbracket \<and> \<not> IsSpace x)))"

function name_loop :: "Converter \<Rightarrow> error + Converter" where
  "name_loop c =
     (case name_continues c of
        Inl e \<Rightarrow> Inl e
      | Inr go \<Rightarrow>
          if go then (case copy_current c of Inl e \<Rightarrow> Inl e | Inr c' \<Rightarrow> name_loop c')
          else Inr c)"
  by pat_completeness auto
termination
  by (relation "measure (\<lambda>c. nat (inputLength c - cursor c))")
     (auto simp: name_continues_def copy_current_def emitRune_def atEof_def
           split: if_splits sum.splits)

text \<open>
  The second loop: the parameters. \<open>nesting\<close> goes up on either opening bracket and
  down on either closing bracket.
\<close>

function params_loop :: "int \<Rightarrow> Converter \<Rightarrow> error + Converter" where
  "params_loop nesting c =
     (if atEof c then Inr c
      else (case current c of
        Inl e \<Rightarrow> Inl e
      | Inr x \<Rightarrow>
          if nesting = 0 \<and> x \<noteq> chr_lbrace \<and> x \<noteq> chr_lbracket then Inr c
          else
            (case copy_current c of
               Inl e \<Rightarrow> Inl e
             | Inr c' \<Rightarrow>
                 params_loop
                   ((if x = chr_lbrace \<or> x = chr_lbracket then nesting + 1 else nesting)
                    - (if x = chr_rbrace \<or> x = chr_rbracket then 1 else 0)) c')))"
  by pat_completeness auto
termination
  by (relation "measure (\<lambda>(n, c). nat (inputLength c - cursor c))")
     (auto simp: copy_current_def emitRune_def atEof_def split: if_splits sum.splits)

definition handleLatexCommand :: "bool \<Rightarrow> Converter \<Rightarrow> error + Converter" where
  "handleLatexCommand emitCommentBlock c =
     (case name_loop (if emitCommentBlock then emit c (runes ''<!--'') else c) of
        Inl e \<Rightarrow> Inl e
      | Inr c1 \<Rightarrow>
          (case params_loop 0 c1 of
             Inl e \<Rightarrow> Inl e
           | Inr c2 \<Rightarrow> Inr (if emitCommentBlock then emit c2 (runes ''-->'') else c2)))"

subsection \<open>LaTeX blocks\<close>

text \<open>
  The first statement of the loop body of \<^verbatim>\<open>handleLatexBlock\<close>: the new value of
  \<open>nesting\<close> at the cursor.
\<close>

definition block_nesting :: "int \<Rightarrow> Converter \<Rightarrow> error + int" where
  "block_nesting nesting c =
     (case current c of
        Inl e \<Rightarrow> Inl e
      | Inr x \<Rightarrow>
          if x \<noteq> chr_backslash then Inr nesting
          else (case lookahead c 5 of
            Inl e \<Rightarrow> Inl e
          | Inr la5 \<Rightarrow>
              if eq la5 (runes ''begin'') then Inr (nesting + 1)
              else (case lookahead c 3 of
                Inl e \<Rightarrow> Inl e
              | Inr la3 \<Rightarrow> if eq la3 (runes ''end'') then Inr (nesting - 1) else Inr nesting)))"

function block_loop :: "int \<Rightarrow> Converter \<Rightarrow> error + Converter" where
  "block_loop nesting c =
     (if atEof c then Inr c
      else (case block_nesting nesting c of
        Inl e \<Rightarrow> Inl e
      | Inr n \<Rightarrow>
          if n = 0 then
            (case handleLatexCommand False c of
               Inl e \<Rightarrow> Inl e
             | Inr c' \<Rightarrow> Inr (emit c' (runes ''-->'')))
          else (case copy_current c of Inl e \<Rightarrow> Inl e | Inr c' \<Rightarrow> block_loop n c')))"
  by pat_completeness auto
termination
  by (relation "measure (\<lambda>(n, c). nat (inputLength c - cursor c))")
     (auto simp: copy_current_def emitRune_def atEof_def split: if_splits sum.splits)

definition handleLatexBlock :: "Converter \<Rightarrow> error + Converter" where
  "handleLatexBlock c = block_loop 0 (emit c (runes ''<!--''))"

definition handleLatex :: "Converter \<Rightarrow> error + (bool \<times> Converter)" where
  "handleLatex c =
     (if inInlineMath c then Inr (False, c)
      else (case current c of
        Inl e \<Rightarrow> Inl e
      | Inr x \<Rightarrow>
          if x \<noteq> chr_backslash then Inr (False, c)
          else (case next_rune c of
            Inl e \<Rightarrow> Inl e
          | Inr y \<Rightarrow>
              if y = chr_backslash then Inr (False, c)
              else (case lookahead c 5 of
                Inl e \<Rightarrow> Inl e
              | Inr la \<Rightarrow>
                  if eq la (runes ''begin'')
                  then (case handleLatexBlock c of Inl e \<Rightarrow> Inl e | Inr c' \<Rightarrow> Inr (True, c'))
                  else (case handleLatexCommand True c of
                          Inl e \<Rightarrow> Inl e
                        | Inr c' \<Rightarrow> Inr (True, c'))))))"

subsection \<open>Inline math\<close>

text \<open>
  The condition \<^verbatim>\<open>c.current() == '\\' && c.next() == '$'\<close> of the first statement of
  \<^verbatim>\<open>handleInlineMath\<close>.
\<close>

definition dollar_escape :: "Converter \<Rightarrow> error + bool" where
  "dollar_escape c =
     (case current c of
        Inl e \<Rightarrow> Inl e
      | Inr x \<Rightarrow>
          if x \<noteq> chr_backslash then Inr False
          else (case next_rune c of Inl e \<Rightarrow> Inl e | Inr y \<Rightarrow> Inr (y = chr_dollar)))"

text \<open>
  The condition \<^verbatim>\<open>c.cursor > 0 && c.in[c.cursor-1] == ' ' && !c.inInlineMath\<close>.
\<close>

definition math_opens :: "Converter \<Rightarrow> error + bool" where
  "math_opens c =
     (if \<not> cursor c > 0 then Inr False
      else (case at c (cursor c - 1) of
        Inl e \<Rightarrow> Inl e
      | Inr p \<Rightarrow> Inr (p = chr_space \<and> \<not> inInlineMath c)))"

text \<open>
  The condition \<^verbatim>\<open>c.lookahead(1)[0] == ' ' && c.inInlineMath\<close>: the slice is taken
  before the flag is read.
\<close>

definition math_closes :: "Converter \<Rightarrow> error + bool" where
  "math_closes c =
     (case lookahead c 1 of
        Inl e \<Rightarrow> Inl e
      | Inr la \<Rightarrow>
          (case la of
             [] \<Rightarrow> Inl IndexOutOfRange
           | f # _ \<Rightarrow> Inr (f = chr_space \<and> inInlineMath c)))"

definition handleInlineMath :: "Converter \<Rightarrow> error + (bool \<times> Converter)" where
  "handleInlineMath c =
     (case dollar_escape c of
        Inl e \<Rightarrow> Inl e
      | Inr esc \<Rightarrow>
          if esc then Inr (True, (emit c (runes [CHR 0x5C, CHR ''$'']))\<lparr>cursor := cursor c + 2\<rparr>)
          else (case current c of
            Inl e \<Rightarrow> Inl e
          | Inr x \<Rightarrow>
              if x \<noteq> chr_dollar then Inr (False, c)
              else (case math_opens c of
                Inl e \<Rightarrow> Inl e
              | Inr opens \<Rightarrow>
                  if opens then Inr (False, c\<lparr>inInlineMath := True\<rparr>)
                  else (case math_closes c of
                    Inl e \<Rightarrow> Inl e
                  | Inr closes \<Rightarrow>
                      if closes then Inr (False, c\<lparr>inInlineMath := False\<rparr>)
                      else Inr (False, c)))))"

subsection \<open>The dispatch loop\<close>

text \<open>One iteration of the loop of \<^verbatim>\<open>Convert\<close>: the first recognizer that claims the
  position, or one code point copied.\<close>

definition Convert_step :: "Converter \<Rightarrow> error + Converter" where
  "Convert_step c =
     (case handleComments c of
        Inl e \<Rightarrow> Inl e
      | Inr (b1, c1) \<Rightarrow>
          if b1 then Inr c1
          else (case handleCDATA c1 of
            Inl e \<Rightarrow> Inl e
          | Inr (b2, c2) \<Rightarrow>
              if b2 then Inr c2
              else (case handleInlineMath c2 of
                Inl e \<Rightarrow> Inl e
              | Inr (b3, c3) \<Rightarrow>
                  if b3 then Inr c3
                  else (case handleLatex c3 of
                    Inl e \<Rightarrow> Inl e
                  | Inr (b4, c4) \<Rightarrow> if b4 then Inr c4 else copy_current c4))))"

function Convert :: "Converter \<Rightarrow> error + rune list" where
  "Convert c =
     (if atEof c then Inr (out c)
      else (case Convert_step c of Inl e \<Rightarrow> Inl e | Inr c' \<Rightarrow> Convert c'))"
  by pat_completeness auto

definition SXMD :: "rune list \<Rightarrow> error + rune list" where
  "SXMD rs = Convert (ByteArrayToConverter rs)"


text \<open>The loops are unfolded one iteration at a time, on demand.\<close>

declare comment_loop.simps [simp del] cdata_loop.simps [simp del] name_loop.simps [simp del]
  params_loop.simps [simp del] block_loop.simps [simp del]

subsection \<open>The frame of a recognizer\<close>

text \<open>
  \<open>extends c c'\<close>: from \<open>c\<close> to \<open>c'\<close> the input, its recorded length and the math flag
  are unchanged and the cursor has not moved back.
\<close>

definition extends :: "Converter \<Rightarrow> Converter \<Rightarrow> bool" where
  "extends c c' = (inputLength c' = inputLength c \<and> inp c' = inp c
     \<and> inInlineMath c' = inInlineMath c \<and> cursor c \<le> cursor c')"

subsection \<open>Properties of the input\<close>

text \<open>
  The claims about runs that never find their terminator speak of the input from the cursor
  on. \<open>contains_terminator xs\<close>: the three code points \<^verbatim>\<open>-->\<close> occur somewhere in
  \<open>xs\<close>.
\<close>

fun contains_terminator :: "rune list \<Rightarrow> bool" where
  "contains_terminator [] = False"
| "contains_terminator (x # xs) = (take 3 (x # xs) = runes ''-->'' \<or> contains_terminator xs)"

text \<open>
  \<open>nesting_step n s\<close> is the nesting counter of the block rewriter after it has looked at
  the first position of \<open>s\<close>, coming from \<open>n\<close>: one more at \<^verbatim>\<open>\begin\<close>, one less at
  \<^verbatim>\<open>\end\<close>. \<open>never_closes n s\<close>: along \<open>s\<close>, position by position, the counter is
  never zero.
\<close>

definition nesting_step :: "int \<Rightarrow> rune list \<Rightarrow> int" where
  "nesting_step n s =
     (if take 6 s = runes (CHR 0x5C # ''begin'') then n + 1
      else if take 4 s = runes (CHR 0x5C # ''end'') then n - 1
      else n)"

fun never_closes :: "int \<Rightarrow> rune list \<Rightarrow> bool" where
  "never_closes n [] = True"
| "never_closes n (x # xs) =
     (nesting_step n (x # xs) \<noteq> 0 \<and> never_closes (nesting_step n (x # xs)) xs)"

section \<open>Every recognizer keeps the input and moves the cursor forward\<close>

lemma extends_refl: "extends c c"
  by (simp add: extends_def)

lemma extends_trans: "extends a b \<Longrightarrow> extends b c \<Longrightarrow> extends a c"
  by (auto simp: extends_def)

lemma extends_emit: "extends c (emit c s)"
  by (simp add: extends_def emit_def)

lemma copy_current_extends:
  "copy_current c = Inr c' \<Longrightarrow> extends c c' \<and> cursor c' = cursor c + 1"
  by (auto simp: copy_current_def emitRune_def extends_def split: sum.splits)

lemma comment_loop_extends: "comment_loop c = Inr c' \<Longrightarrow> extends c c'"
  apply (induction c arbitrary: c' rule: comment_loop.induct)
  apply (subst (asm) (2) comment_loop.simps)
  apply (auto split: sum.splits if_splits dest!: copy_current_extends intro: extends_trans extends_refl)
  done

lemma cdata_loop_extends: "cdata_loop c = Inr c' \<Longrightarrow> extends c c'"
proof (induction c rule: cdata_loop.induct)
  case (1 c)
  show ?case
  proof (cases "cdata_continues c = Inr True")
    case True
    with "1.prems" have "cdata_loop (c\<lparr>cursor := cursor c + 1\<rparr>) = Inr c'"
      by (simp add: cdata_loop.simps [of c])
    with "1.IH" True have "extends (c\<lparr>cursor := cursor c + 1\<rparr>) c'" by simp
    then show ?thesis by (simp add: extends_def)
  next
    case False
    with "1.prems" show ?thesis
      by (auto simp: cdata_loop.simps [of c] extends_refl split: sum.splits if_splits)
  qed
qed

lemma name_loop_extends: "name_loop c = Inr c' \<Longrightarrow> extends c c'"
  apply (induction c arbitrary: c' rule: name_loop.induct)
  apply (subst (asm) (2) name_loop.simps)
  apply (auto split: sum.splits if_splits dest!: copy_current_extends intro: extends_trans extends_refl)
  done

lemma params_loop_extends: "params_loop n c = Inr c' \<Longrightarrow> extends c c'"
  apply (induction n c arbitrary: c' rule: params_loop.induct)
  apply (subst (asm) (2) params_loop.simps)
  apply (auto split: sum.splits if_splits dest!: copy_current_extends intro: extends_trans extends_refl)
  done

lemma extends_emit_iff [simp]:
  "extends (emit c s) c' = extends c c'" "extends c (emit c' s) = extends c c'"
  by (simp_all add: extends_def emit_def)

lemma handleLatexCommand_extends: "handleLatexCommand b c = Inr c' \<Longrightarrow> extends c c'"
  by (auto simp: handleLatexCommand_def split: sum.splits if_splits
      dest!: name_loop_extends params_loop_extends intro: extends_trans)

lemma block_loop_extends: "block_loop n c = Inr c' \<Longrightarrow> extends c c'"
  apply (induction n c arbitrary: c' rule: block_loop.induct)
  apply (subst (asm) (2) block_loop.simps)
  apply (auto split: sum.splits if_splits
      dest!: copy_current_extends handleLatexCommand_extends intro: extends_trans extends_refl)
  done

lemma handleLatexBlock_extends: "handleLatexBlock c = Inr c' \<Longrightarrow> extends c c'"
  by (auto simp: handleLatexBlock_def dest!: block_loop_extends)

lemma handleComments_extends: "handleComments c = Inr (b, c') \<Longrightarrow> extends c c'"
  by (auto simp: handleComments_def extends_def emit_def split: sum.splits if_splits
      dest!: comment_loop_extends)

lemma handleCDATA_extends: "handleCDATA c = Inr (b, c') \<Longrightarrow> extends c c'"
  by (auto simp: handleCDATA_def extends_def split: sum.splits if_splits
      dest!: cdata_loop_extends)

lemma handleLatex_extends: "handleLatex c = Inr (b, c') \<Longrightarrow> extends c c'"
  by (auto simp: handleLatex_def extends_refl split: sum.splits if_splits
      dest!: handleLatexBlock_extends handleLatexCommand_extends)

lemma handleInlineMath_cursor:
  "handleInlineMath c = Inr (b, c') \<Longrightarrow>
     inputLength c' = inputLength c \<and> inp c' = inp c \<and> cursor c \<le> cursor c'"
  by (auto simp: handleInlineMath_def emit_def split: sum.splits if_splits)

lemma emit_reads [simp]:
  "current (emit c s) = current c" "next_rune (emit c s) = next_rune c"
  "lookahead (emit c s) n = lookahead c n" "atEof (emit c s) = atEof c"
  "cursor (emit c s) = cursor c" "inp (emit c s) = inp c"
  "inputLength (emit c s) = inputLength c" "inInlineMath (emit c s) = inInlineMath c"
  "out (emit c s) = out c @ s"
  by (simp_all add: emit_def current_def next_rune_def lookahead_def atEof_def at_def)

lemma handleComments_False: "handleComments c = Inr (False, c') \<Longrightarrow> c' = c"
  by (auto simp: handleComments_def split: sum.splits if_splits)

lemma handleCDATA_False: "handleCDATA c = Inr (False, c') \<Longrightarrow> c' = c"
  by (auto simp: handleCDATA_def split: sum.splits if_splits)

lemma handleLatex_False: "handleLatex c = Inr (False, c') \<Longrightarrow> c' = c"
  by (auto simp: handleLatex_def split: sum.splits if_splits)

lemma handleComments_True: "handleComments c = Inr (True, c') \<Longrightarrow> cursor c + 3 \<le> cursor c'"
  by (auto simp: handleComments_def extends_def split: sum.splits if_splits
      dest!: comment_loop_extends)

lemma handleCDATA_True: "handleCDATA c = Inr (True, c') \<Longrightarrow> cursor c + 3 \<le> cursor c'"
  by (auto simp: handleCDATA_def extends_def split: sum.splits if_splits
      dest!: cdata_loop_extends)

lemma handleInlineMath_True:
  "handleInlineMath c = Inr (True, c') \<Longrightarrow> cursor c' = cursor c + 2"
  by (auto simp: handleInlineMath_def split: sum.splits if_splits)

lemma handleInlineMath_False:
  "handleInlineMath c = Inr (False, c') \<Longrightarrow> \<exists>m. c' = c\<lparr>inInlineMath := m\<rparr>"
  apply (auto simp: handleInlineMath_def split: sum.splits if_splits)
  apply (rule exI [of _ "inInlineMath c"], simp)+
  done

lemma name_loop_backslash:
  assumes "\<not> atEof c" "current c = Inr chr_backslash" "name_loop c = Inr c'"
  shows "cursor c < cursor c'"
proof -
  from assms(1,2) have "name_continues c = Inr True"
    by (simp add: name_continues_def IsSpace_def)
  with assms(3) obtain c1 where c1: "copy_current c = Inr c1" "name_loop c1 = Inr c'"
    by (auto simp: name_loop.simps [of c] split: sum.splits)
  from copy_current_extends [OF c1(1)] name_loop_extends [OF c1(2)] show ?thesis
    by (simp add: extends_def)
qed

lemma handleLatexCommand_backslash:
  assumes "\<not> atEof c" "current c = Inr chr_backslash" "handleLatexCommand b c = Inr c'"
  shows "cursor c < cursor c'"
proof -
  let ?c0 = "if b then emit c (runes ''<!--'') else c"
  from assms(3) obtain c1 c2 where s: "name_loop ?c0 = Inr c1" "params_loop 0 c1 = Inr c2"
    and c': "c' = (if b then emit c2 (runes ''-->'') else c2)"
    by (auto simp: handleLatexCommand_def split: sum.splits)
  from assms(1,2) have "\<not> atEof ?c0" "current ?c0 = Inr chr_backslash" by simp_all
  from name_loop_backslash [OF this s(1)] have "cursor c < cursor c1" by (simp split: if_splits)
  with params_loop_extends [OF s(2)] c' show ?thesis by (simp add: extends_def)
qed

lemma block_loop_begin:
  assumes "\<not> atEof c" "current c = Inr chr_backslash"
    and "lookahead c 5 = Inr la" "eq la (runes ''begin'')" "block_loop 0 c = Inr c'"
  shows "cursor c < cursor c'"
proof -
  from assms(2-4) have "block_nesting 0 c = Inr 1"
    by (simp add: block_nesting_def)
  with assms(1,5) obtain c1 where c1: "copy_current c = Inr c1" "block_loop 1 c1 = Inr c'"
    by (auto simp: block_loop.simps [of 0 c] split: sum.splits)
  from copy_current_extends [OF c1(1)] block_loop_extends [OF c1(2)] show ?thesis
    by (simp add: extends_def)
qed

lemma handleLatex_True:
  assumes "\<not> atEof c" "handleLatex c = Inr (True, c')"
  shows "cursor c < cursor c'"
  using assms
  by (auto simp: handleLatex_def handleLatexBlock_def split: sum.splits if_splits
      dest: handleLatexCommand_backslash block_loop_begin [of "emit c (runes ''<!--'')", simplified])

lemma Convert_step_advances:
  assumes "\<not> atEof c" "Convert_step c = Inr c'"
  shows "cursor c < cursor c' \<and> inputLength c' = inputLength c \<and> inp c' = inp c"
proof -
  from assms(2) obtain b1 c1 where h1: "handleComments c = Inr (b1, c1)"
    by (auto simp: Convert_step_def split: sum.splits)
  show ?thesis
  proof (cases b1)
    case True
    with h1 assms(2) have "c' = c1" by (simp add: Convert_step_def)
    with True h1 handleComments_True [of c c'] handleComments_extends [of c True c']
    show ?thesis by (simp add: extends_def)
  next
    case b1: False
    with h1 have [simp]: "c1 = c" by (auto dest: handleComments_False)
    from assms(2) h1 b1 obtain b2 c2 where h2: "handleCDATA c = Inr (b2, c2)"
      by (auto simp: Convert_step_def split: sum.splits)
    show ?thesis
    proof (cases b2)
      case True
      with h1 b1 h2 assms(2) have "c' = c2" by (simp add: Convert_step_def)
      with True h2 handleCDATA_True [of c c'] handleCDATA_extends [of c True c']
      show ?thesis by (simp add: extends_def)
    next
      case b2: False
      with h2 have [simp]: "c2 = c" by (auto dest: handleCDATA_False)
      from assms(2) h1 b1 h2 b2 obtain b3 c3 where h3: "handleInlineMath c = Inr (b3, c3)"
        by (auto simp: Convert_step_def split: sum.splits)
      show ?thesis
      proof (cases b3)
        case True
        with h1 b1 h2 b2 h3 assms(2) have "c' = c3" by (simp add: Convert_step_def)
        with True h3 handleInlineMath_True [of c c'] handleInlineMath_cursor [of c True c']
        show ?thesis by simp
      next
        case b3: False
        with h3 obtain m where c3: "c3 = c\<lparr>inInlineMath := m\<rparr>"
          by (auto dest: handleInlineMath_False)
        from assms(1) c3 have ne: "\<not> atEof c3" by (simp add: atEof_def)
        from assms(2) h1 b1 h2 b2 h3 b3 obtain b4 c4 where h4: "handleLatex c3 = Inr (b4, c4)"
          by (auto simp: Convert_step_def split: sum.splits)
        show ?thesis
        proof (cases b4)
          case True
          with h1 b1 h2 b2 h3 b3 h4 assms(2) have "c' = c4" by (simp add: Convert_step_def)
          with True h4 handleLatex_True [OF ne, of c'] handleLatex_extends [of c3 True c'] c3
          show ?thesis by (simp add: extends_def)
        next
          case b4: False
          with h4 have "c4 = c3" by (auto dest: handleLatex_False)
          with h1 b1 h2 b2 h3 b3 h4 b4 assms(2) have "copy_current c3 = Inr c'"
            by (simp add: Convert_step_def)
          from copy_current_extends [OF this] c3 show ?thesis by (simp add: extends_def)
        qed
      qed
    qed
  qed
qed

text \<open>
  Every iteration of the dispatch loop that returns moves the cursor forward, so the loop of
  \<^verbatim>\<open>Convert\<close> ends: it returns the output or the panic of a recognizer.
\<close>

termination Convert
  by (relation "measure (\<lambda>c. nat (inputLength c - cursor c))")
     (auto simp: atEof_def dest!: Convert_step_advances [rotated])

declare Convert.simps [simp del]


section \<open>Reading the input\<close>

lemma flag_reads [simp]:
  "current (c\<lparr>inInlineMath := m\<rparr>) = current c"
  "next_rune (c\<lparr>inInlineMath := m\<rparr>) = next_rune c"
  "lookahead (c\<lparr>inInlineMath := m\<rparr>) n = lookahead c n"
  "atEof (c\<lparr>inInlineMath := m\<rparr>) = atEof c"
  by (simp_all add: current_def next_rune_def lookahead_def atEof_def at_def)

lemma eq_elems_iff: "length a = length b \<Longrightarrow> eq_elems a b \<longleftrightarrow> a = b"
proof (induction a arbitrary: b)
  case Nil
  then show ?case by simp
next
  case (Cons v a)
  then obtain w b' where "b = w # b'" by (cases b) auto
  with Cons show ?case by auto
qed

lemma eq_iff [simp]: "eq a b \<longleftrightarrow> a = b"
  by (auto simp: eq_def eq_elems_iff)

text \<open>
  \<open>contains_terminator\<close> is the occurrence of \<^verbatim>\<open>-->\<close> as a contiguous part of the
  list.
\<close>

lemma contains_terminator_iff:
  "contains_terminator xs \<longleftrightarrow> (\<exists>pre post. xs = pre @ runes ''-->'' @ post)"
proof (induction xs)
  case Nil
  then show ?case by (simp add: runes_def)
next
  case (Cons x xs)
  show ?case
  proof
    assume "contains_terminator (x # xs)"
    then consider "take 3 (x # xs) = runes ''-->''" | "contains_terminator xs" by auto
    then show "\<exists>pre post. x # xs = pre @ runes ''-->'' @ post"
    proof cases
      case 1
      then have "x # xs = [] @ runes ''-->'' @ drop 3 (x # xs)"
        by (metis append_Nil append_take_drop_id)
      then show ?thesis by blast
    next
      case 2
      with Cons.IH obtain pre post where "xs = pre @ runes ''-->'' @ post" by blast
      then have "x # xs = (x # pre) @ runes ''-->'' @ post" by simp
      then show ?thesis by blast
    qed
  next
    assume "\<exists>pre post. x # xs = pre @ runes ''-->'' @ post"
    then obtain pre post where e: "x # xs = pre @ runes ''-->'' @ post" by blast
    show "contains_terminator (x # xs)"
    proof (cases pre)
      case Nil
      with e have "take 3 (x # xs) = runes ''-->''" by (simp add: runes_def)
      then show ?thesis by simp
    next
      case (Cons p pre')
      with e have "xs = pre' @ runes ''-->'' @ post" by simp
      with Cons.IH have "contains_terminator xs" by blast
      then show ?thesis by simp
    qed
  qed
qed

lemma nth_in_last:
  assumes "n < length xs" "xs ! n \<notin> set (drop (length xs - k) xs)"
  shows "n + k < length xs"
proof (rule ccontr)
  assume "\<not> n + k < length xs"
  with assms(1) have "length xs - k \<le> n" by simp
  with assms(1) have "drop (length xs - k) xs ! (n - (length xs - k)) = xs ! n"
    and "n - (length xs - k) < length (drop (length xs - k) xs)" by simp_all
  then have "xs ! n \<in> set (drop (length xs - k) xs)" by (metis nth_mem)
  with assms(2) show False by simp
qed

lemma take2_drop:
  "Suc n < length xs \<Longrightarrow> take 2 (drop n xs) = [xs ! n, xs ! Suc n]"
  by (simp add: numeral_2_eq_2 take_Suc_conv_app_nth)

lemma take1_drop:
  "n < length xs \<Longrightarrow> take (Suc 0) (drop n xs) = [xs ! n]"
  by (simp add: take_Suc_conv_app_nth)

lemma copy_current_out:
  assumes "copy_current c = Inr c'"
  shows "out c' = out c @ take (nat (cursor c' - cursor c)) (drop (nat (cursor c)) (inp c))
         \<and> cursor c' = cursor c + 1 \<and> inp c' = inp c"
  using assms
  by (auto simp: copy_current_def current_def at_def emitRune_def take1_drop
      split: sum.splits if_splits)

section \<open>One iteration of the dispatch loop\<close>

lemma handleInlineMath_flag:
  assumes "handleInlineMath c = Inr (b, c')"
  shows "(\<not> inInlineMath c \<and> inInlineMath c') \<longleftrightarrow>
         (\<not> inInlineMath c \<and> current c = Inr chr_dollar \<and> 0 < cursor c
            \<and> at c (cursor c - 1) = Inr chr_space)"
  using assms
  by (auto simp: handleInlineMath_def dollar_escape_def math_opens_def math_closes_def
      split: sum.splits if_splits list.splits)

lemma handleInlineMath_False_cases:
  assumes "handleInlineMath c = Inr (False, c')"
  shows "c' = c \<or> (current c = Inr chr_dollar \<and> (\<exists>m. c' = c\<lparr>inInlineMath := m\<rparr>))"
  using assms
  by (auto simp: handleInlineMath_def split: sum.splits if_splits)

lemma Convert_step_cases:
  assumes "Convert_step c = Inr c'"
  obtains (comment) "handleComments c = Inr (True, c')"
  | (cdata) "handleComments c = Inr (False, c)" "handleCDATA c = Inr (True, c')"
  | (escape) "handleComments c = Inr (False, c)" "handleCDATA c = Inr (False, c)"
      "handleInlineMath c = Inr (True, c')"
  | (latex) c3 where "handleComments c = Inr (False, c)" "handleCDATA c = Inr (False, c)"
      "handleInlineMath c = Inr (False, c3)" "handleLatex c3 = Inr (True, c')"
  | (copy) c3 where "handleComments c = Inr (False, c)" "handleCDATA c = Inr (False, c)"
      "handleInlineMath c = Inr (False, c3)" "handleLatex c3 = Inr (False, c3)"
      "copy_current c3 = Inr c'"
proof -
  from assms obtain b1 c1 where h1: "handleComments c = Inr (b1, c1)"
    by (auto simp: Convert_step_def split: sum.splits)
  show ?thesis
  proof (cases b1)
    case True
    with h1 assms show ?thesis by (intro comment) (simp add: Convert_step_def)
  next
    case b1: False
    with h1 have h1': "handleComments c = Inr (False, c)" by (auto dest: handleComments_False)
    from assms h1' obtain b2 c2 where h2: "handleCDATA c = Inr (b2, c2)"
      by (auto simp: Convert_step_def split: sum.splits)
    show ?thesis
    proof (cases b2)
      case True
      with h1' h2 assms show ?thesis by (intro cdata) (simp_all add: Convert_step_def)
    next
      case b2: False
      with h2 have h2': "handleCDATA c = Inr (False, c)" by (auto dest: handleCDATA_False)
      from assms h1' h2' obtain b3 c3 where h3: "handleInlineMath c = Inr (b3, c3)"
        by (auto simp: Convert_step_def split: sum.splits)
      show ?thesis
      proof (cases b3)
        case True
        with h1' h2' h3 assms show ?thesis by (intro escape) (simp_all add: Convert_step_def)
      next
        case b3: False
        from assms h1' h2' h3 b3 obtain b4 c4 where h4: "handleLatex c3 = Inr (b4, c4)"
          by (auto simp: Convert_step_def split: sum.splits)
        show ?thesis
        proof (cases b4)
          case True
          with h1' h2' h3 b3 h4 assms show ?thesis
            by (intro latex [of c3]) (simp_all add: Convert_step_def)
        next
          case b4: False
          with h4 have h4': "handleLatex c3 = Inr (False, c3)" by (auto dest: handleLatex_False)
          with h1' h2' h3 b3 assms show ?thesis
            by (intro copy [of c3]) (simp_all add: Convert_step_def)
        qed
      qed
    qed
  qed
qed

lemma copy_current_inInlineMath:
  "copy_current c = Inr c' \<Longrightarrow> inInlineMath c' = inInlineMath c"
  by (auto dest: copy_current_extends simp: extends_def)

lemma handleLatex_dollar: "current c = Inr chr_dollar \<Longrightarrow> handleLatex c = Inr (False, c)"
  by (simp add: handleLatex_def)

text \<open>
  When an iteration of the dispatch loop sets the math flag: only \<^verbatim>\<open>handleInlineMath\<close>
  writes it, and the iteration reaches it only when no recognizer before it claims the
  position.
\<close>

lemma Convert_step_flag:
  assumes "Convert_step c = Inr c'"
  shows "(\<not> inInlineMath c \<and> inInlineMath c') \<longleftrightarrow>
         (\<not> inInlineMath c \<and> current c = Inr chr_dollar \<and> 0 < cursor c
            \<and> at c (cursor c - 1) = Inr chr_space)"
  using assms
proof (cases rule: Convert_step_cases)
  case comment
  then have "extends c c'" by (rule handleComments_extends)
  moreover from comment have "current c = Inr chr_lt"
    by (auto simp: handleComments_def split: sum.splits if_splits)
  ultimately show ?thesis by (simp add: extends_def)
next
  case cdata
  then have "extends c c'" by (auto dest: handleCDATA_extends)
  moreover from cdata have "current c = Inr chr_lt"
    by (auto simp: handleCDATA_def split: sum.splits if_splits)
  ultimately show ?thesis by (simp add: extends_def)
next
  case escape
  from escape(3) show ?thesis by (rule handleInlineMath_flag)
next
  case (latex c3)
  from latex(4) have "inInlineMath c' = inInlineMath c3"
    by (auto dest: handleLatex_extends simp: extends_def)
  with handleInlineMath_flag [OF latex(3)] show ?thesis by simp
next
  case (copy c3)
  from copy(5) have "inInlineMath c' = inInlineMath c3" by (rule copy_current_inInlineMath)
  with handleInlineMath_flag [OF copy(3)] show ?thesis by simp
qed

section \<open>Loops that run to the end of the input\<close>

lemma comment_loop_unterminated:
  assumes "inputLength c = int (length (inp c))" "0 \<le> cursor c" "cursor c \<le> inputLength c"
    and "\<not> contains_terminator (drop (nat (cursor c)) (inp c))"
    and "chr_minus \<notin> set (drop (length (inp c) - 2) (inp c))"
  shows "comment_loop c
           = Inr (c\<lparr>cursor := inputLength c, out := out c @ drop (nat (cursor c)) (inp c)\<rparr>)"
  using assms
proof (induction c rule: comment_loop.induct)
  case (1 c)
  let ?n = "nat (cursor c)"
  show ?case
  proof (cases "atEof c")
    case True
    with "1.prems" have "cursor c = inputLength c" "drop ?n (inp c) = []"
      by (simp_all add: atEof_def)
    moreover from True have "comment_continues c = Inr False" by (simp add: comment_continues_def)
    ultimately show ?thesis by (simp add: comment_loop.simps [of c])
  next
    case False
    with "1.prems" have n: "?n < length (inp c)" by (simp add: atEof_def)
    let ?x = "inp c ! ?n"
    from n have d: "drop ?n (inp c) = ?x # drop (Suc ?n) (inp c)"
      by (simp add: Cons_nth_drop_Suc)
    from n "1.prems"(2) have cur: "current c = Inr ?x" by (simp add: current_def at_def)
    have go: "comment_continues c = Inr True"
    proof (cases "?x = chr_minus")
      case False
      with \<open>\<not> atEof c\<close> cur show ?thesis by (simp add: comment_continues_def)
    next
      case True
      with "1.prems"(5) have "?x \<notin> set (drop (length (inp c) - 2) (inp c))" by simp
      from nth_in_last [OF n this] have room: "?n + 2 < length (inp c)" .
      with "1.prems"(2) have la: "lookahead c 2 = Inr (take 2 (drop (Suc ?n) (inp c)))"
        by (simp add: lookahead_def slice_def nat_add_distrib)
      from "1.prems"(4) d have "take 3 (?x # drop (Suc ?n) (inp c)) \<noteq> runes ''-->''" by simp
      with True have "take 2 (drop (Suc ?n) (inp c)) \<noteq> runes ''->''"
        by (simp add: runes_def numeral_3_eq_3 numeral_2_eq_2)
      with \<open>\<not> atEof c\<close> cur True la show ?thesis by (simp add: comment_continues_def)
    qed
    let ?c1 = "(emitRune c ?x)\<lparr>cursor := cursor c + 1\<rparr>"
    from cur have cp: "copy_current c = Inr ?c1" by (simp add: copy_current_def)
    from "1.prems" n d have p: "inputLength ?c1 = int (length (inp ?c1))" "0 \<le> cursor ?c1"
      "cursor ?c1 \<le> inputLength ?c1"
      "\<not> contains_terminator (drop (nat (cursor ?c1)) (inp ?c1))"
      "chr_minus \<notin> set (drop (length (inp ?c1) - 2) (inp ?c1))"
      by (simp_all add: emitRune_def nat_add_distrib)
    from "1.IH" [OF go _ cp p] have "comment_loop ?c1
        = Inr (?c1\<lparr>cursor := inputLength ?c1,
                    out := out ?c1 @ drop (nat (cursor ?c1)) (inp ?c1)\<rparr>)" by simp
    with go cp d "1.prems"(2) show ?thesis
      by (simp add: comment_loop.simps [of c] emitRune_def nat_add_distrib)
  qed
qed

lemma block_nesting_step:
  assumes "0 \<le> cursor c" "nat (cursor c) < length (inp c)"
    and "chr_backslash \<notin> set (drop (length (inp c) - 5) (inp c))"
  shows "block_nesting n c = Inr (nesting_step n (drop (nat (cursor c)) (inp c)))"
proof -
  let ?k = "nat (cursor c)"
  let ?x = "inp c ! ?k"
  from assms(2) have d: "drop ?k (inp c) = ?x # drop (Suc ?k) (inp c)"
    by (simp add: Cons_nth_drop_Suc)
  from assms(1,2) have cur: "current c = Inr ?x" by (simp add: current_def at_def)
  show ?thesis
  proof (cases "?x = chr_backslash")
    case False
    with cur d show ?thesis
      by (simp add: block_nesting_def nesting_step_def runes_def numeral_eq_Suc)
  next
    case True
    with assms(3) have "?x \<notin> set (drop (length (inp c) - 5) (inp c))" by simp
    from nth_in_last [OF assms(2) this] have room: "?k + 5 < length (inp c)" .
    with assms(1) have la: "lookahead c 5 = Inr (take 5 (drop (Suc ?k) (inp c)))"
      "lookahead c 3 = Inr (take 3 (drop (Suc ?k) (inp c)))"
      by (simp_all add: lookahead_def slice_def nat_add_distrib)
    have t: "take 6 (?x # drop (Suc ?k) (inp c)) = ?x # take 5 (drop (Suc ?k) (inp c))"
      "take 4 (?x # drop (Suc ?k) (inp c)) = ?x # take 3 (drop (Suc ?k) (inp c))"
      by (simp_all add: numeral_eq_Suc)
    from cur True la d t show ?thesis
      by (simp add: block_nesting_def nesting_step_def runes_def)
  qed
qed

lemma block_loop_unclosed:
  assumes "inputLength c = int (length (inp c))" "0 \<le> cursor c" "cursor c \<le> inputLength c"
    and "never_closes n (drop (nat (cursor c)) (inp c))"
    and "chr_backslash \<notin> set (drop (length (inp c) - 5) (inp c))"
  shows "block_loop n c
           = Inr (c\<lparr>cursor := inputLength c, out := out c @ drop (nat (cursor c)) (inp c)\<rparr>)"
  using assms
proof (induction n c rule: block_loop.induct)
  case (1 n c)
  let ?k = "nat (cursor c)"
  show ?case
  proof (cases "atEof c")
    case True
    with "1.prems" have "cursor c = inputLength c" "drop ?k (inp c) = []"
      by (simp_all add: atEof_def)
    with True show ?thesis by (simp add: block_loop.simps [of n c])
  next
    case False
    with "1.prems" have k: "?k < length (inp c)" by (simp add: atEof_def)
    let ?x = "inp c ! ?k"
    let ?n' = "nesting_step n (drop ?k (inp c))"
    from k have d: "drop ?k (inp c) = ?x # drop (Suc ?k) (inp c)"
      by (simp add: Cons_nth_drop_Suc)
    from "1.prems"(2) k "1.prems"(5) have bn: "block_nesting n c = Inr ?n'"
      by (rule block_nesting_step)
    from "1.prems"(4) d have nz: "?n' \<noteq> 0" and rest: "never_closes ?n' (drop (Suc ?k) (inp c))"
      by simp_all
    from k "1.prems"(2) have cur: "current c = Inr ?x" by (simp add: current_def at_def)
    let ?c1 = "(emitRune c ?x)\<lparr>cursor := cursor c + 1\<rparr>"
    from cur have cp: "copy_current c = Inr ?c1" by (simp add: copy_current_def)
    from "1.prems" k rest have p: "inputLength ?c1 = int (length (inp ?c1))" "0 \<le> cursor ?c1"
      "cursor ?c1 \<le> inputLength ?c1"
      "never_closes ?n' (drop (nat (cursor ?c1)) (inp ?c1))"
      "chr_backslash \<notin> set (drop (length (inp ?c1) - 5) (inp ?c1))"
      by (simp_all add: emitRune_def nat_add_distrib)
    from "1.IH" [OF False bn nz cp p] have "block_loop ?n' ?c1
        = Inr (?c1\<lparr>cursor := inputLength ?c1,
                    out := out ?c1 @ drop (nat (cursor ?c1)) (inp ?c1)\<rparr>)" .
    with False bn nz cp d "1.prems"(2) show ?thesis
      by (simp add: block_loop.simps [of n c] emitRune_def nat_add_distrib)
  qed
qed

section \<open>The claims\<close>

text \<open>The equations that evaluate a recognizer, an iteration or a whole conversion on a
  given input.\<close>

lemmas step_defs = ByteArrayToConverter_def Convert_step_def
  handleComments_def handleCDATA_def handleInlineMath_def handleLatex_def handleLatexBlock_def
  handleLatexCommand_def comment_loop.simps cdata_loop.simps name_loop.simps params_loop.simps
  block_loop.simps comment_continues_def cdata_continues_def name_continues_def block_nesting_def
  dollar_escape_def math_opens_def math_closes_def copy_current_def emit_def emitRune_def
  eq_def current_def next_rune_def at_def lookahead_def slice_def atEof_def runes_def IsSpace_def

lemmas conv_defs = SXMD_def Convert.simps step_defs

text \<open>
  Claim C1 says that the conversion returns an output for every input, with every
  lookahead, next and previous access in bounds. The recognizers read ahead of the cursor
  without asking how much input is left, and the conversion panics on each of these inputs:
  a lone \<^verbatim>\<open><\<close>, a lone \<^verbatim>\<open>$\<close>, a lone backslash, the opener \<^verbatim>\<open><!--\<close> with nothing
  after it, the partial opener \<^verbatim>\<open><![CDATA\<close>, the text \<^verbatim>\<open>a < b\<close>, and the command
  \<^verbatim>\<open>\foo\<close> at the end of the input.
\<close>

theorem SXMD_panics_at_end_of_input:
  "SXMD (runes ''<'') = Inl SliceBoundsOutOfRange
   \<and> SXMD (runes ''$'') = Inl SliceBoundsOutOfRange
   \<and> SXMD (runes [CHR 0x5C]) = Inl IndexOutOfRange
   \<and> SXMD (runes ''<!--'') = Inl SliceBoundsOutOfRange
   \<and> SXMD (runes ''<![CDATA'') = Inl SliceBoundsOutOfRange
   \<and> SXMD (runes ''a < b'') = Inl SliceBoundsOutOfRange
   \<and> SXMD (runes (CHR 0x5C # ''foo'')) = Inl SliceBoundsOutOfRange"
  by (simp add: conv_defs)

text \<open>
  Claim C2 says that two backslashes followed by \<^verbatim>\<open>begin{a}\<close> are copied unchanged,
  with no comment marker. The first backslash is copied, but the next iteration stands on
  the second one, whose successor is \<^verbatim>\<open>b\<close>: the block rewriter runs from there, and the
  output is a backslash, the marker \<^verbatim>\<open><!--\<close> and \<^verbatim>\<open>\begin{a}\<close>, with no closing
  marker.
\<close>

theorem SXMD_double_backslash_begin:
  "SXMD (runes (CHR 0x5C # CHR 0x5C # ''begin{a}''))
     = Inr (runes (CHR 0x5C # ''<!--'' @ CHR 0x5C # ''begin{a}''))"
  by (simp add: conv_defs)

text \<open>
  Claim C3 says that the math flag is flipped to true exactly on a \<^verbatim>\<open>$\<close> that is
  preceded by whitespace or is the first code point of the input, and is followed by a
  non-whitespace code point. The code tests \<^verbatim>\<open>c.cursor > 0\<close> and compares the preceding
  code point with the space U+0020. So the flag is flipped to true only in an iteration of
  the dispatch loop that starts, with the flag false, on a \<^verbatim>\<open>$\<close> at a position greater
  than 0 whose preceding code point is that space, and it is flipped to true in every such
  iteration in which a non-whitespace code point follows the \<^verbatim>\<open>$\<close>. The statement says
  nothing of a \<^verbatim>\<open>$\<close> that is followed by whitespace.
\<close>

theorem math_mode_entered:
  assumes "Convert_step c = Inr c'" and "\<not> inInlineMath c"
  shows "(inInlineMath c' \<longrightarrow>
            current c = Inr chr_dollar \<and> 0 < cursor c \<and> at c (cursor c - 1) = Inr chr_space)
         \<and> (current c = Inr chr_dollar \<and> 0 < cursor c \<and> at c (cursor c - 1) = Inr chr_space
              \<and> (\<exists>y. next_rune c = Inr y \<and> \<not> IsSpace y)
            \<longrightarrow> inInlineMath c')"
proof -
  from Convert_step_flag [OF assms(1)] assms(2)
  have "inInlineMath c' \<longleftrightarrow>
      current c = Inr chr_dollar \<and> 0 < cursor c \<and> at c (cursor c - 1) = Inr chr_space"
    by simp
  then show ?thesis by blast
qed

theorem math_mode_entered_witness:
  "Convert_step \<lparr>inputLength = 3, cursor = 1, inInlineMath = False,
                  inp = runes '' $x'', out = runes '' ''\<rparr>
     = Inr \<lparr>inputLength = 3, cursor = 2, inInlineMath = True,
            inp = runes '' $x'', out = runes '' $''\<rparr>
   \<and> current \<lparr>inputLength = 3, cursor = 1, inInlineMath = False,
                inp = runes '' $x'', out = runes '' ''\<rparr> = Inr chr_dollar
   \<and> at \<lparr>inputLength = 3, cursor = 1, inInlineMath = False,
           inp = runes '' $x'', out = runes '' ''\<rparr> 0 = Inr chr_space
   \<and> next_rune \<lparr>inputLength = 3, cursor = 1, inInlineMath = False,
                  inp = runes '' $x'', out = runes '' ''\<rparr> = Inr (of_char CHR ''x'')
   \<and> \<not> IsSpace (of_char CHR ''x'')"
proof -
  let ?c = "\<lparr>inputLength = 3, cursor = 1, inInlineMath = False,
             inp = runes '' $x'', out = runes '' ''\<rparr>"
  let ?c' = "\<lparr>inputLength = 3, cursor = 2, inInlineMath = True,
             inp = runes '' $x'', out = runes '' $''\<rparr>"
  have step: "Convert_step ?c = Inr ?c'" by (simp add: step_defs)
  have off: "\<not> inInlineMath ?c" by simp
  have nx: "next_rune ?c = Inr (of_char CHR ''x'')" "\<not> IsSpace (of_char CHR ''x'')"
    by (simp_all add: step_defs)
  from math_mode_entered [OF step off]
  have "current ?c = Inr chr_dollar \<and> 0 < cursor ?c \<and> at ?c (cursor ?c - 1) = Inr chr_space"
    by simp
  with step nx show ?thesis by simp
qed

text \<open>
  Against C3 as stated: a \<^verbatim>\<open>$\<close> at position 0 followed by \<^verbatim>\<open>x\<close> leaves the flag
  false, and so does a \<^verbatim>\<open>$\<close> that is preceded by a tab or by a newline and followed by
  \<^verbatim>\<open>x\<close>.
\<close>

theorem math_mode_entered_counterexample:
  "handleInlineMath (ByteArrayToConverter (runes ''$x''))
     = Inr (False, ByteArrayToConverter (runes ''$x''))
   \<and> handleInlineMath \<lparr>inputLength = 3, cursor = 1, inInlineMath = False,
                       inp = runes (CHR 0x09 # ''$x''), out = runes [CHR 0x09]\<rparr>
     = Inr (False, \<lparr>inputLength = 3, cursor = 1, inInlineMath = False,
                       inp = runes (CHR 0x09 # ''$x''), out = runes [CHR 0x09]\<rparr>)
   \<and> handleInlineMath \<lparr>inputLength = 3, cursor = 1, inInlineMath = False,
                       inp = runes (CHR 0x0A # ''$x''), out = runes [CHR 0x0A]\<rparr>
     = Inr (False, \<lparr>inputLength = 3, cursor = 1, inInlineMath = False,
                       inp = runes (CHR 0x0A # ''$x''), out = runes [CHR 0x0A]\<rparr>)"
  by (simp add: step_defs)

text \<open>
  Claim C4 says that in math mode everything up to the closing \<^verbatim>\<open>$\<close> is copied,
  comments and CDATA sections included. The dispatch loop tries the comment and the CDATA
  recognizer first, whatever the flag says. What holds: in math mode, an iteration in
  which neither of the two claims the position copies what it consumes, which is the pair
  \<^verbatim>\<open>\$\<close> or the one code point at the cursor.
\<close>

theorem math_mode_copies:
  assumes "inInlineMath c"
    and "handleComments c = Inr (False, c)" and "handleCDATA c = Inr (False, c)"
    and "Convert_step c = Inr c'"
  shows "out c' = out c @ take (nat (cursor c' - cursor c)) (drop (nat (cursor c)) (inp c))
         \<and> (cursor c' = cursor c + 1 \<or> cursor c' = cursor c + 2) \<and> inp c' = inp c"
  using assms(4)
proof (cases rule: Convert_step_cases)
  case comment
  with assms(2) show ?thesis by simp
next
  case cdata
  with assms(3) show ?thesis by simp
next
  case escape
  then have e: "current c = Inr chr_backslash" "next_rune c = Inr chr_dollar"
    and c': "c' = (emit c (runes [CHR 0x5C, CHR ''$'']))\<lparr>cursor := cursor c + 2\<rparr>"
    by (auto simp: handleInlineMath_def dollar_escape_def split: sum.splits if_splits)
  from e have r: "0 \<le> cursor c" "Suc (nat (cursor c)) < length (inp c)"
    "inp c ! nat (cursor c) = chr_backslash" "inp c ! Suc (nat (cursor c)) = chr_dollar"
    by (auto simp: current_def next_rune_def at_def nat_add_distrib split: if_splits)
  from take2_drop [OF r(2)] r(3,4) c' show ?thesis
    by (simp add: runes_def emit_def)
next
  case (latex c3)
  from handleInlineMath_False_cases [OF latex(3)] have "handleLatex c3 = Inr (False, c3)"
  proof
    assume "c3 = c"
    with assms(1) show ?thesis by (simp add: handleLatex_def)
  next
    assume "current c = Inr chr_dollar \<and> (\<exists>m. c3 = c\<lparr>inInlineMath := m\<rparr>)"
    then obtain m where "current c = Inr chr_dollar" "c3 = c\<lparr>inInlineMath := m\<rparr>" by blast
    then have "current c3 = Inr chr_dollar" by simp
    then show ?thesis by (rule handleLatex_dollar)
  qed
  with latex(4) show ?thesis by simp
next
  case (copy c3)
  from handleInlineMath_False [OF copy(3)]
  have "out c3 = out c \<and> cursor c3 = cursor c \<and> inp c3 = inp c" by auto
  with copy_current_out [OF copy(5)] show ?thesis by simp
qed

theorem math_mode_copies_witness:
  "Convert_step \<lparr>inputLength = 8, cursor = 3, inInlineMath = True,
                  inp = runes (''a $'' @ CHR 0x5C # ''$$ b''), out = runes ''a $''\<rparr>
     = Inr \<lparr>inputLength = 8, cursor = 5, inInlineMath = True,
            inp = runes (''a $'' @ CHR 0x5C # ''$$ b''), out = runes (''a $'' @ CHR 0x5C # ''$'')\<rparr>
   \<and> take 2 (drop 3 (runes (''a $'' @ CHR 0x5C # ''$$ b''))) = runes (CHR 0x5C # ''$'')"
proof -
  let ?c = "\<lparr>inputLength = 8, cursor = 3, inInlineMath = True,
             inp = runes (''a $'' @ CHR 0x5C # ''$$ b''), out = runes ''a $''\<rparr>"
  let ?c' = "\<lparr>inputLength = 8, cursor = 5, inInlineMath = True,
             inp = runes (''a $'' @ CHR 0x5C # ''$$ b''), out = runes (''a $'' @ CHR 0x5C # ''$'')\<rparr>"
  have m: "inInlineMath ?c" by simp
  have h1: "handleComments ?c = Inr (False, ?c)" by (simp add: step_defs)
  have h2: "handleCDATA ?c = Inr (False, ?c)" by (simp add: step_defs)
  have step: "Convert_step ?c = Inr ?c'" by (simp add: step_defs)
  from math_mode_copies [OF m h1 h2 step]
  have "out ?c' = out ?c @ take (nat (cursor ?c' - cursor ?c)) (drop (nat (cursor ?c)) (inp ?c))"
    by blast
  then have "take 2 (drop 3 (runes (''a $'' @ CHR 0x5C # ''$$ b''))) = runes (CHR 0x5C # ''$'')"
    by (simp add: runes_def)
  with step show ?thesis by simp
qed

text \<open>
  Against C4 as stated: a CDATA section inside a math span is dropped from the output; the
  iteration that drops it starts with the flag set.
\<close>

theorem math_mode_cdata_counterexample:
  "SXMD (runes ''a $x<![CDATA[y]]>z$ b'') = Inr (runes ''a $xz$ b'')
   \<and> Convert_step \<lparr>inputLength = 21, cursor = 4, inInlineMath = True,
                     inp = runes ''a $x<![CDATA[y]]>z$ b'', out = runes ''a $x''\<rparr>
       = Inr \<lparr>inputLength = 21, cursor = 17, inInlineMath = True,
               inp = runes ''a $x<![CDATA[y]]>z$ b'', out = runes ''a $x''\<rparr>"
  by (simp add: conv_defs)

text \<open>
  Claim C5: the input \<^verbatim>\<open>\begin{a}\begin{b}body\end{b}\end{a}\<close> is converted to
  \<^verbatim>\<open><!--\begin{a}\begin{b}body\end{b}\end{a}-->\<close>: the whole nested span is wrapped in
  one pair of comment markers.
\<close>

theorem SXMD_nested_block:
  "SXMD (runes (CHR 0x5C # ''begin{a}'' @ CHR 0x5C # ''begin{b}body''
                 @ CHR 0x5C # ''end{b}'' @ CHR 0x5C # ''end{a}''))
     = Inr (runes (''<!--'' @ CHR 0x5C # ''begin{a}'' @ CHR 0x5C # ''begin{b}body''
                 @ CHR 0x5C # ''end{b}'' @ CHR 0x5C # ''end{a}'' @ ''-->''))"
  by (simp add: conv_defs)

text \<open>
  Claim C6: the input \<^verbatim>\<open><!-- \begin{a} $x$ -->\<close> is returned unchanged: what a
  terminated HTML comment holds is copied and never rewritten.
\<close>

theorem SXMD_comment_unchanged:
  "SXMD (runes (''<!-- '' @ CHR 0x5C # ''begin{a} $x$ -->''))
     = Inr (runes (''<!-- '' @ CHR 0x5C # ''begin{a} $x$ -->''))"
  by (simp add: conv_defs)

text \<open>
  Claim C7: the input \<^verbatim>\<open>before<![CDATA[anything $ \foo ]]>after\<close> is converted to
  \<^verbatim>\<open>beforeafter\<close>: the CDATA section goes, markers and content, and the text around it
  stays.
\<close>

theorem SXMD_cdata_removed:
  "SXMD (runes (''before<![CDATA[anything $ '' @ CHR 0x5C # ''foo ]]>after''))
     = Inr (runes ''beforeafter'')"
  by (simp add: conv_defs)

text \<open>
  A comment with no terminator, away from the defect of C1: when neither of the last two
  code points of the input is \<^verbatim>\<open>-\<close>, the loop copies the input to its end,
  \<^verbatim>\<open>-->\<close> is appended all the same, and the cursor ends 3 past the end of the input.
\<close>

theorem handleComments_unterminated:
  assumes "inputLength c = int (length (inp c))"
    and "current c = Inr chr_lt" and "lookahead c 3 = Inr (runes ''!--'')"
    and "\<not> contains_terminator (drop (nat (cursor c)) (inp c))"
    and "chr_minus \<notin> set (drop (length (inp c) - 2) (inp c))"
  shows "comment_loop c
           = Inr (c\<lparr>cursor := inputLength c, out := out c @ drop (nat (cursor c)) (inp c)\<rparr>)
         \<and> handleComments c
           = Inr (True, c\<lparr>cursor := inputLength c + 3,
                           out := out c @ drop (nat (cursor c)) (inp c) @ runes ''-->''\<rparr>)"
proof -
  from assms(2) have r: "0 \<le> cursor c" "cursor c < int (length (inp c))"
    by (auto simp: current_def at_def split: if_splits)
  with assms(1) have "cursor c \<le> inputLength c" by simp
  from comment_loop_unterminated [OF assms(1) r(1) this assms(4,5)]
  have l: "comment_loop c
      = Inr (c\<lparr>cursor := inputLength c, out := out c @ drop (nat (cursor c)) (inp c)\<rparr>)" .
  with assms(2,3) show ?thesis by (simp add: handleComments_def emit_def)
qed

theorem handleComments_unterminated_witness:
  "handleComments (ByteArrayToConverter (runes ''<!-- x''))
     = Inr (True, \<lparr>inputLength = 6, cursor = 9, inInlineMath = False,
                    inp = runes ''<!-- x'', out = runes ''<!-- x-->''\<rparr>)"
proof -
  let ?c = "ByteArrayToConverter (runes ''<!-- x'')"
  have h: "inputLength ?c = int (length (inp ?c))" "current ?c = Inr chr_lt"
    "lookahead ?c 3 = Inr (runes ''!--'')"
    "\<not> contains_terminator (drop (nat (cursor ?c)) (inp ?c))"
    "chr_minus \<notin> set (drop (length (inp ?c) - 2) (inp ?c))"
    by (simp_all add: step_defs)
  from handleComments_unterminated [OF h] show ?thesis
    by (simp add: ByteArrayToConverter_def runes_def)
qed

text \<open>
  Claim C8 says that for every input with an opened comment and no terminator the copy
  loop stops at the end of the input, \<^verbatim>\<open>-->\<close> is appended and the cursor is advanced by
  3. On a \<^verbatim>\<open>-\<close> the loop condition reads two code points ahead without asking whether
  they exist: on the input \<^verbatim>\<open><!--\<close> the recognizer is entered, there is no terminator,
  and the loop panics at the first \<^verbatim>\<open>-\<close>, so nothing is appended and no cursor is
  advanced.
\<close>

theorem handleComments_panics_on_bare_opener:
  "current (ByteArrayToConverter (runes ''<!--'')) = Inr chr_lt
   \<and> lookahead (ByteArrayToConverter (runes ''<!--'')) 3 = Inr (runes ''!--'')
   \<and> \<not> contains_terminator (runes ''<!--'')
   \<and> comment_loop (ByteArrayToConverter (runes ''<!--'')) = Inl SliceBoundsOutOfRange
   \<and> handleComments (ByteArrayToConverter (runes ''<!--'')) = Inl SliceBoundsOutOfRange"
  by (simp add: step_defs)

text \<open>
  Claim C9: an iteration of the dispatch loop that returns leaves the cursor strictly
  greater than it found it, and no recognizer, nor the copying fallback, returns with a
  smaller cursor.
\<close>

theorem cursor_monotone:
  "(\<not> atEof c \<and> Convert_step c = Inr c' \<longrightarrow> cursor c < cursor c')
   \<and> (handleComments c = Inr (b, c') \<longrightarrow> cursor c \<le> cursor c')
   \<and> (handleCDATA c = Inr (b, c') \<longrightarrow> cursor c \<le> cursor c')
   \<and> (handleInlineMath c = Inr (b, c') \<longrightarrow> cursor c \<le> cursor c')
   \<and> (handleLatex c = Inr (b, c') \<longrightarrow> cursor c \<le> cursor c')
   \<and> (copy_current c = Inr c' \<longrightarrow> cursor c \<le> cursor c')"
proof (intro conjI impI)
  assume "\<not> atEof c \<and> Convert_step c = Inr c'"
  then show "cursor c < cursor c'" by (simp add: Convert_step_advances)
next
  assume "handleComments c = Inr (b, c')"
  then show "cursor c \<le> cursor c'" by (auto dest: handleComments_extends simp: extends_def)
next
  assume "handleCDATA c = Inr (b, c')"
  then show "cursor c \<le> cursor c'" by (auto dest: handleCDATA_extends simp: extends_def)
next
  assume "handleInlineMath c = Inr (b, c')"
  then show "cursor c \<le> cursor c'" by (simp add: handleInlineMath_cursor)
next
  assume "handleLatex c = Inr (b, c')"
  then show "cursor c \<le> cursor c'" by (auto dest: handleLatex_extends simp: extends_def)
next
  assume "copy_current c = Inr c'"
  then show "cursor c \<le> cursor c'" by (auto dest: copy_current_extends simp: extends_def)
qed

theorem cursor_monotone_witness:
  "\<not> atEof (ByteArrayToConverter (runes ''<!--x-->y''))
   \<and> Convert_step (ByteArrayToConverter (runes ''<!--x-->y''))
       = Inr \<lparr>inputLength = 9, cursor = 8, inInlineMath = False,
              inp = runes ''<!--x-->y'', out = runes ''<!--x-->''\<rparr>
   \<and> handleComments (ByteArrayToConverter (runes ''<!--x-->y''))
       = Inr (True, \<lparr>inputLength = 9, cursor = 8, inInlineMath = False,
                      inp = runes ''<!--x-->y'', out = runes ''<!--x-->''\<rparr>)
   \<and> handleCDATA (ByteArrayToConverter (runes ''<![CDATA[x]]>y''))
       = Inr (True, \<lparr>inputLength = 14, cursor = 13, inInlineMath = False,
                      inp = runes ''<![CDATA[x]]>y'', out = []\<rparr>)
   \<and> handleInlineMath (ByteArrayToConverter (runes (CHR 0x5C # ''$5'')))
       = Inr (True, \<lparr>inputLength = 3, cursor = 2, inInlineMath = False,
                      inp = runes (CHR 0x5C # ''$5''), out = runes (CHR 0x5C # ''$'')\<rparr>)
   \<and> handleLatex (ByteArrayToConverter (runes (CHR 0x5C # ''alpha{x}{y} done'')))
       = Inr (True, \<lparr>inputLength = 17, cursor = 12, inInlineMath = False,
                      inp = runes (CHR 0x5C # ''alpha{x}{y} done''),
                      out = runes (''<!--'' @ CHR 0x5C # ''alpha{x}{y}-->'')\<rparr>)
   \<and> copy_current (ByteArrayToConverter (runes ''ab''))
       = Inr \<lparr>inputLength = 2, cursor = 1, inInlineMath = False,
              inp = runes ''ab'', out = runes ''a''\<rparr>
   \<and> cursor (ByteArrayToConverter (runes ''<!--x-->y'')) < 8
   \<and> cursor (ByteArrayToConverter (runes ''<![CDATA[x]]>y'')) \<le> 13
   \<and> cursor (ByteArrayToConverter (runes (CHR 0x5C # ''$5''))) \<le> 2
   \<and> cursor (ByteArrayToConverter (runes (CHR 0x5C # ''alpha{x}{y} done''))) \<le> 12
   \<and> cursor (ByteArrayToConverter (runes ''ab'')) \<le> 1"
proof -
  let ?a = "ByteArrayToConverter (runes ''<!--x-->y'')"
  let ?a' = "\<lparr>inputLength = 9, cursor = 8, inInlineMath = False,
              inp = runes ''<!--x-->y'', out = runes ''<!--x-->''\<rparr>"
  let ?d = "ByteArrayToConverter (runes ''<![CDATA[x]]>y'')"
  let ?d' = "\<lparr>inputLength = 14, cursor = 13, inInlineMath = False,
              inp = runes ''<![CDATA[x]]>y'', out = []\<rparr>"
  let ?e = "ByteArrayToConverter (runes (CHR 0x5C # ''$5''))"
  let ?e' = "\<lparr>inputLength = 3, cursor = 2, inInlineMath = False,
              inp = runes (CHR 0x5C # ''$5''), out = runes (CHR 0x5C # ''$'')\<rparr>"
  let ?f = "ByteArrayToConverter (runes (CHR 0x5C # ''alpha{x}{y} done''))"
  let ?f' = "\<lparr>inputLength = 17, cursor = 12, inInlineMath = False,
              inp = runes (CHR 0x5C # ''alpha{x}{y} done''),
              out = runes (''<!--'' @ CHR 0x5C # ''alpha{x}{y}-->'')\<rparr>"
  let ?g = "ByteArrayToConverter (runes ''ab'')"
  let ?g' = "\<lparr>inputLength = 2, cursor = 1, inInlineMath = False,
              inp = runes ''ab'', out = runes ''a''\<rparr>"
  have a: "\<not> atEof ?a \<and> Convert_step ?a = Inr ?a'" by (simp add: step_defs)
  have a2: "handleComments ?a = Inr (True, ?a')" by (simp add: step_defs)
  have d: "handleCDATA ?d = Inr (True, ?d')" by (simp add: step_defs)
  have e: "handleInlineMath ?e = Inr (True, ?e')" by (simp add: step_defs)
  have f: "handleLatex ?f = Inr (True, ?f')" by (simp add: step_defs)
  have g: "copy_current ?g = Inr ?g'" by (simp add: step_defs)
  from a cursor_monotone [of ?a ?a'] have 1: "cursor ?a < cursor ?a'" by blast
  from a2 cursor_monotone [of ?a ?a' True] have 2: "cursor ?a \<le> cursor ?a'" by blast
  from d cursor_monotone [of ?d ?d' True] have 3: "cursor ?d \<le> cursor ?d'" by blast
  from e cursor_monotone [of ?e ?e' True] have 4: "cursor ?e \<le> cursor ?e'" by blast
  from f cursor_monotone [of ?f ?f' True] have 5: "cursor ?f \<le> cursor ?f'" by blast
  from g cursor_monotone [of ?g ?g'] have 6: "cursor ?g \<le> cursor ?g'" by blast
  from a a2 d e f g 1 2 3 4 5 6 show ?thesis by simp
qed

text \<open>
  A block that is never closed, away from the defect of C1: when none of the last five
  code points of the input is a backslash, the rewriter emits \<^verbatim>\<open><!--\<close>, copies the input
  to its end, leaves the cursor there and emits no closing marker.
\<close>

theorem handleLatexBlock_unclosed:
  assumes "inputLength c = int (length (inp c))" and "\<not> inInlineMath c"
    and "current c = Inr chr_backslash" and "lookahead c 5 = Inr (runes ''begin'')"
    and "never_closes 0 (drop (nat (cursor c)) (inp c))"
    and "chr_backslash \<notin> set (drop (length (inp c) - 5) (inp c))"
  shows "handleLatexBlock c
           = Inr (c\<lparr>cursor := inputLength c,
                     out := out c @ runes ''<!--'' @ drop (nat (cursor c)) (inp c)\<rparr>)
         \<and> handleLatex c
           = Inr (True, c\<lparr>cursor := inputLength c,
                           out := out c @ runes ''<!--'' @ drop (nat (cursor c)) (inp c)\<rparr>)"
proof -
  let ?c0 = "emit c (runes ''<!--'')"
  from assms(3) have r: "0 \<le> cursor c" "cursor c < int (length (inp c))"
    by (auto simp: current_def at_def split: if_splits)
  with assms(1) have le: "cursor c \<le> inputLength c" by simp
  from assms(1) r le assms(5,6)
  have "block_loop 0 ?c0
      = Inr (?c0\<lparr>cursor := inputLength ?c0, out := out ?c0 @ drop (nat (cursor ?c0)) (inp ?c0)\<rparr>)"
    by (intro block_loop_unclosed) simp_all
  then have b: "handleLatexBlock c
      = Inr (c\<lparr>cursor := inputLength c,
                out := out c @ runes ''<!--'' @ drop (nat (cursor c)) (inp c)\<rparr>)"
    by (simp add: handleLatexBlock_def emit_def)
  from assms(4) r have "cursor c + 1 < int (length (inp c))"
    and "take 5 (drop (nat (cursor c + 1)) (inp c)) = runes ''begin''"
    by (auto simp: lookahead_def slice_def split: if_splits)
  then have "next_rune c = Inr (of_char CHR ''b'')"
    using r by (simp add: next_rune_def at_def runes_def hd_drop_conv_nth [symmetric] take_Suc numeral_eq_Suc)
  with assms(2,3,4) b show ?thesis by (simp add: handleLatex_def)
qed

theorem handleLatexBlock_unclosed_witness:
  "handleLatex (ByteArrayToConverter
      (runes (CHR 0x5C # ''begin{a}'' @ CHR 0x5C # ''begin{b}'' @ CHR 0x5C # ''end{b} tail'')))
     = Inr (True, \<lparr>inputLength = 30, cursor = 30, inInlineMath = False,
              inp = runes (CHR 0x5C # ''begin{a}'' @ CHR 0x5C # ''begin{b}'' @ CHR 0x5C # ''end{b} tail''),
              out = runes (''<!--'' @ CHR 0x5C # ''begin{a}'' @ CHR 0x5C # ''begin{b}''
                           @ CHR 0x5C # ''end{b} tail'')\<rparr>)"
proof -
  let ?c = "ByteArrayToConverter
      (runes (CHR 0x5C # ''begin{a}'' @ CHR 0x5C # ''begin{b}'' @ CHR 0x5C # ''end{b} tail''))"
  have h: "inputLength ?c = int (length (inp ?c))" "\<not> inInlineMath ?c"
    "current ?c = Inr chr_backslash" "lookahead ?c 5 = Inr (runes ''begin'')"
    "never_closes 0 (drop (nat (cursor ?c)) (inp ?c))"
    "chr_backslash \<notin> set (drop (length (inp ?c) - 5) (inp ?c))"
    by (simp_all add: step_defs nesting_step_def)
  from handleLatexBlock_unclosed [OF h] show ?thesis
    by (simp add: ByteArrayToConverter_def runes_def)
qed

text \<open>
  Claim C10 says that for every input with an opened block whose nesting counter never
  returns to zero the rewriter copies the rest of the input behind \<^verbatim>\<open><!--\<close> and returns
  with the cursor at the end of the input. On a backslash the loop reads five code points
  ahead without asking whether they exist: on \<^verbatim>\<open>\begin{a}\<close> followed by one more
  backslash the rewriter is entered, the counter stays at 1, and the loop panics at the
  last backslash.
\<close>

theorem handleLatexBlock_panics_on_trailing_backslash:
  "current (ByteArrayToConverter (runes (CHR 0x5C # ''begin{a}'' @ [CHR 0x5C]))) = Inr chr_backslash
   \<and> lookahead (ByteArrayToConverter (runes (CHR 0x5C # ''begin{a}'' @ [CHR 0x5C]))) 5
       = Inr (runes ''begin'')
   \<and> never_closes 0 (runes (CHR 0x5C # ''begin{a}'' @ [CHR 0x5C]))
   \<and> handleLatexBlock (ByteArrayToConverter (runes (CHR 0x5C # ''begin{a}'' @ [CHR 0x5C])))
       = Inl SliceBoundsOutOfRange"
  by (simp add: step_defs nesting_step_def)

end
